theory Spec2Isabelle
  imports Main
begin

section \<open>Python values and exceptions\<close>

text \<open>
  The client in \<^verbatim>\<open>caddypy/caddy.py\<close> handles dynamically typed values: a configuration
  may be a \<^verbatim>\<open>dict\<close>, a \<^verbatim>\<open>str\<close>, \<^verbatim>\<open>bytes\<close>, a number, a boolean and so on, and the code
  inspects \<^verbatim>\<open>type(config)\<close>. The values are a datatype with one constructor per Python
  type the code and the \<^verbatim>\<open>json\<close> module tell apart.

  A \<^verbatim>\<open>str\<close> is represented by its UTF-8 encoding (lone surrogates encoded like any other
  code point), one \<open>char\<close> per byte, so that a literal such as \<open>''config/''\<close> is the
  Python string of the same spelling; concatenation, equality, emptiness and stripping
  of \<^verbatim>\<open>'/'\<close> commute with this representation. \<^verbatim>\<open>bytes\<close> are one \<open>char\<close> per byte.
  A \<^verbatim>\<open>dict\<close> is the list of its items in insertion order. A \<^verbatim>\<open>float\<close> is its binary64
  value, an infinity or the NaN.
\<close>

datatype pyfloat = Finite bool int int | Infinite bool | NaN

datatype pyval =
    PNone
  | PBool bool
  | PInt int
  | PFloat pyfloat
  | PStr string
  | PBytes string
  | PByteArray string
  | PList "pyval list"
  | PDict "(pyval \<times> pyval) list"

text \<open>
  The exceptions that can leave the client. \<open>JSONDecodeError\<close> stands for
  \<^verbatim>\<open>json.JSONDecodeError\<close> (its message, document and position are not modelled),
  \<open>HTTPError\<close> for \<^verbatim>\<open>requests.HTTPError\<close>, which carries the response (here: its status
  code and body), and \<open>RequestException\<close> for every other failure of the transport
  (no connection, timeout, ...).
\<close>

datatype error =
    JSONDecodeError
  | TypeError
  | UnicodeDecodeError
  | HTTPError int string
  | RequestException

fun is_dict :: "pyval \<Rightarrow> bool" where
  "is_dict (PDict _) = True"
| "is_dict _ = False"

fun is_str :: "pyval \<Rightarrow> bool" where
  "is_str (PStr _) = True"
| "is_str _ = False"

section \<open>Text helpers of the Python runtime\<close>

text \<open>\<^verbatim>\<open>str(n)\<close> for an \<^verbatim>\<open>int\<close>: the decimal digits, with a minus sign when negative.\<close>

fun digits :: "nat \<Rightarrow> string" where
  "digits n = (if n < 10 then [char_of (48 + n)] else digits (n div 10) @ [char_of (48 + n mod 10)])"

declare digits.simps [simp del]

definition str_int :: "int \<Rightarrow> string" where
  "str_int i = (if i < 0 then CHR ''-'' # digits (nat (- i)) else digits (nat i))"

text \<open>\<^verbatim>\<open>s.lstrip('/')\<close>: every leading \<^verbatim>\<open>'/'\<close> is removed.\<close>

definition lstrip_slash :: "string \<Rightarrow> string" where
  "lstrip_slash s = dropWhile (\<lambda>c. c = CHR ''/'') s"

text \<open>Truthiness of an optional string: \<^verbatim>\<open>None\<close> and \<^verbatim>\<open>''\<close> are false.\<close>

fun truthy :: "string option \<Rightarrow> bool" where
  "truthy None = False"
| "truthy (Some s) = (s \<noteq> [])"

section \<open>Floats\<close>

text \<open>
  A Python \<^verbatim>\<open>float\<close> is an IEEE 754 binary64 value. A finite one is given by its sign, its
  mantissa and its binary exponent: \<open>Finite s m e\<close> is \<open>m * 2 ^ e\<close>, negated when \<open>s\<close>
  holds, with \<open>2 ^ 52 \<le> m < 2 ^ 53\<close> and \<open>- 1074 \<le> e \<le> 971\<close> for a normal number,
  \<open>0 < m < 2 ^ 52\<close> and \<open>e = - 1074\<close> for a subnormal one, and \<open>m = 0\<close>, \<open>e = 0\<close> for zero.
\<close>

text \<open>The number of binary and of decimal digits of a positive integer.\<close>

function bit_length :: "int \<Rightarrow> int" where
  "bit_length a = (if a \<le> 0 then 0 else 1 + bit_length (a div 2))"
  by pat_completeness auto
termination
  by (relation "measure nat") auto

declare bit_length.simps [simp del]

function dec_length :: "int \<Rightarrow> int" where
  "dec_length a = (if a \<le> 0 then 0 else 1 + dec_length (a div 10))"
  by pat_completeness auto
termination
  by (relation "measure nat") auto

declare dec_length.simps [simp del]

text \<open>\<open>pow b k\<close> is \<open>b\<close> to the power \<open>k\<close>, and 1 for a negative \<open>k\<close>: a ratio scaled by a power
  with an exponent of either sign multiplies its numerator or its denominator.\<close>

definition pow :: "int \<Rightarrow> int \<Rightarrow> int" where
  "pow b k = (if k \<le> 0 then 1 else b ^ nat k)"

text \<open>The quotient of two positive integers rounded to the nearest integer, ties to even.\<close>

definition round_half_even :: "int \<Rightarrow> int \<Rightarrow> int" where
  "round_half_even num den =
     (let q = num div den; r = num mod den
      in if den < 2 * r \<or> (2 * r = den \<and> odd q) then q + 1 else q)"

text \<open>
  The binary64 value nearest to the ratio \<open>a / b\<close> (\<open>0 \<le> a\<close>, \<open>0 < b\<close>), ties to even, as
  \<^verbatim>\<open>float('...')\<close> computes it from a decimal literal: an infinity beyond the largest
  finite value, zero below half the smallest subnormal one.
\<close>

definition double_of_ratio :: "bool \<Rightarrow> int \<Rightarrow> int \<Rightarrow> pyfloat" where
  "double_of_ratio s a b =
     (if a \<le> 0 then Finite s 0 0
      else
        (let k = bit_length a - bit_length b;
             e1 = (if b * pow 2 k \<le> a * pow 2 (- k) then k - 52 else k - 53);
             e = max e1 (- 1074);
             m = round_half_even (a * pow 2 (- e)) (b * pow 2 e);
             (m', e') = (if m = 2 ^ 53 then (2 ^ 52, e + 1) else (m, e))
         in if m' = 0 then Finite s 0 0
            else if 971 < e' then Infinite s
            else Finite s m' e'))"

text \<open>
  \<^verbatim>\<open>float.__repr__\<close> writes the shortest string of decimal digits that reads back as the
  same float and, among these, the one nearest to its value. With \<open>n\<close> digits the two
  candidates are the value cut to \<open>n\<close> digits and its successor; \<open>n\<close> runs from 1 to 17.
\<close>

definition reads_back :: "int \<Rightarrow> int \<Rightarrow> pyfloat \<Rightarrow> bool" where
  "reads_back c q f \<longleftrightarrow> double_of_ratio False (c * pow 10 q) (pow 10 (- q)) = f"

definition try_digits :: "int \<Rightarrow> int \<Rightarrow> int \<Rightarrow> int \<Rightarrow> pyfloat \<Rightarrow> int option \<times> int \<times> int" where
  "try_digits n p a b f =
     (let q = p - n + 1;
          num = a * pow 10 (- q);
          den = b * pow 10 q;
          lo = num div den;
          r = num mod den;
          hi = lo + 1;
          lo_ok = reads_back lo q f;
          hi_ok = reads_back hi q f;
          nearest = (if den < 2 * r \<or> (2 * r = den \<and> odd lo) then hi else lo)
      in (if lo_ok \<and> hi_ok then Some nearest
          else if lo_ok then Some lo
          else if hi_ok then Some hi
          else None, nearest, q))"

fun shortest :: "nat \<Rightarrow> int \<Rightarrow> int \<Rightarrow> int \<Rightarrow> int \<Rightarrow> pyfloat \<Rightarrow> int \<times> int" where
  "shortest 0 n p a b f = (case try_digits n p a b f of (_, c, q) \<Rightarrow> (c, q))"
| "shortest (Suc k) n p a b f =
     (case try_digits n p a b f of
        (Some c, _, q) \<Rightarrow> (c, q)
      | (None, _, _) \<Rightarrow> shortest k (n + 1) p a b f)"

definition strip_zeros :: "string \<Rightarrow> string" where
  "strip_zeros ds = rev (dropWhile (\<lambda>c. c = CHR ''0'') (rev ds))"

text \<open>
  The layout of \<^verbatim>\<open>float.__repr__\<close>: exponent notation when the decimal point lies more than
  16 digits to the right or more than 3 zeros to the left of the digits.
\<close>

definition float_repr :: "pyfloat \<Rightarrow> string" where
  "float_repr f =
     (case f of
        NaN \<Rightarrow> ''nan''
      | Infinite s \<Rightarrow> (if s then ''-inf'' else ''inf'')
      | Finite s m e \<Rightarrow>
          (if s then ''-'' else []) @
          (if m \<le> 0 then ''0.0''
           else
             (let a = m * pow 2 e;
                  b = pow 2 (- e);
                  p0 = dec_length a - dec_length b;
                  p = (if b * pow 10 p0 \<le> a * pow 10 (- p0) then p0 else p0 - 1);
                  (c, q) = shortest 16 1 p a b (Finite False m e);
                  all = digits (nat c);
                  ds = strip_zeros all;
                  decpt = q + int (length all);
                  n = int (length ds)
              in if decpt \<le> - 4 \<or> 16 < decpt then
                   take 1 ds @ (if 1 < n then ''.'' @ drop 1 ds else [])
                   @ ''e'' @ (if decpt - 1 < 0 then ''-'' else ''+'')
                   @ (if \<bar>decpt - 1\<bar> < 10 then ''0'' else []) @ digits (nat \<bar>decpt - 1\<bar>)
                 else if decpt \<le> 0 then ''0.'' @ replicate (nat (- decpt)) CHR ''0'' @ ds
                 else if n \<le> decpt then ds @ replicate (nat (decpt - n)) CHR ''0'' @ ''.0''
                 else take (nat decpt) ds @ ''.'' @ drop (nat decpt) ds)))"

section \<open>The \<^verbatim>\<open>json\<close> module: decoding\<close>

text \<open>
  \<^verbatim>\<open>json.loads\<close> belongs to the Python standard library. It is modelled after
  \<^verbatim>\<open>json/__init__.py\<close>, \<^verbatim>\<open>json/decoder.py\<close> and \<^verbatim>\<open>json/scanner.py\<close> of CPython with the
  default decoder (strict mode, no hooks, the accelerated scanner: ASCII digits and
  strict hexadecimal escapes). Resource limits of the interpreter (recursion depth, the
  limit on the number of digits of an \<^verbatim>\<open>int\<close>) are not modelled.
\<close>

subsection \<open>Code points and UTF-8\<close>

definition utf8_encode :: "nat \<Rightarrow> string" where
  "utf8_encode n =
     (if n < 0x80 then [char_of n]
      else if n < 0x800 then [char_of (0xC0 + n div 64), char_of (0x80 + n mod 64)]
      else if n < 0x10000 then
        [char_of (0xE0 + n div 4096), char_of (0x80 + n div 64 mod 64), char_of (0x80 + n mod 64)]
      else
        [char_of (0xF0 + n div 262144), char_of (0x80 + n div 4096 mod 64),
         char_of (0x80 + n div 64 mod 64), char_of (0x80 + n mod 64)])"

definition is_cont :: "char \<Rightarrow> bool" where
  "is_cont b \<longleftrightarrow> 0x80 \<le> (of_char b :: nat) \<and> (of_char b :: nat) \<le> 0xBF"

definition cont :: "char \<Rightarrow> nat" where
  "cont b = of_char b - 0x80"

text \<open>
  Strict UTF-8 decoding into code points, as \<^verbatim>\<open>bytes.decode('utf-8', 'surrogatepass')\<close>:
  overlong forms and code points above \<^verbatim>\<open>0x10FFFF\<close> are errors, surrogates pass.
\<close>

fun utf8_decode :: "string \<Rightarrow> nat list option" where
  "utf8_decode [] = Some []"
| "utf8_decode (b # bs) =
     (let n = (of_char b :: nat) in
      if n < 0x80 then map_option (Cons n) (utf8_decode bs)
      else if 0xC2 \<le> n \<and> n \<le> 0xDF then
        (case bs of
           b1 # r \<Rightarrow>
             if is_cont b1 then map_option (Cons ((n - 0xC0) * 64 + cont b1)) (utf8_decode r)
             else None
         | _ \<Rightarrow> None)
      else if 0xE0 \<le> n \<and> n \<le> 0xEF then
        (case bs of
           b1 # b2 # r \<Rightarrow>
             (let p = (n - 0xE0) * 4096 + cont b1 * 64 + cont b2 in
              if is_cont b1 \<and> is_cont b2 \<and> 0x800 \<le> p then map_option (Cons p) (utf8_decode r)
              else None)
         | _ \<Rightarrow> None)
      else if 0xF0 \<le> n \<and> n \<le> 0xF4 then
        (case bs of
           b1 # b2 # b3 # r \<Rightarrow>
             (let p = (n - 0xF0) * 262144 + cont b1 * 4096 + cont b2 * 64 + cont b3 in
              if is_cont b1 \<and> is_cont b2 \<and> is_cont b3 \<and> 0x10000 \<le> p \<and> p \<le> 0x10FFFF
              then map_option (Cons p) (utf8_decode r)
              else None)
         | _ \<Rightarrow> None)
      else None)"

text \<open>
  The code points of a \<^verbatim>\<open>str\<close>. A byte sequence that is not well-formed stands for no
  Python string; its bytes are then taken one by one, to keep the function total.
\<close>

definition points :: "string \<Rightarrow> nat list" where
  "points s = (case utf8_decode s of Some ps \<Rightarrow> ps | None \<Rightarrow> map of_char s)"

subsection \<open>Decoding \<^verbatim>\<open>bytes\<close>\<close>

text \<open>UTF-16 and UTF-32 with the \<^verbatim>\<open>surrogatepass\<close> handler; \<open>be\<close> selects big-endian.\<close>

definition unit16 :: "bool \<Rightarrow> char \<Rightarrow> char \<Rightarrow> nat" where
  "unit16 be b0 b1 = (if be then of_char b0 * 256 + of_char b1 else of_char b1 * 256 + of_char b0)"

fun utf16_decode :: "bool \<Rightarrow> string \<Rightarrow> nat list option" where
  "utf16_decode be [] = Some []"
| "utf16_decode be [b] = None"
| "utf16_decode be (b0 # b1 # r) =
     (let u = unit16 be b0 b1 in
      if 0xD800 \<le> u \<and> u \<le> 0xDBFF then
        (case r of
           c0 # c1 # r' \<Rightarrow>
             (let u2 = unit16 be c0 c1 in
              if 0xDC00 \<le> u2 \<and> u2 \<le> 0xDFFF
              then map_option (Cons (0x10000 + (u - 0xD800) * 1024 + (u2 - 0xDC00))) (utf16_decode be r')
              else map_option (Cons u) (utf16_decode be r))
         | _ \<Rightarrow> map_option (Cons u) (utf16_decode be r))
      else map_option (Cons u) (utf16_decode be r))"

fun utf32_decode :: "bool \<Rightarrow> string \<Rightarrow> nat list option" where
  "utf32_decode be (b0 # b1 # b2 # b3 # r) =
     (let p = (if be then ((of_char b0 * 256 + of_char b1) * 256 + of_char b2) * 256 + of_char b3
               else ((of_char b3 * 256 + of_char b2) * 256 + of_char b1) * 256 + of_char b0)
      in if p \<le> (0x10FFFF::nat) then map_option (Cons p) (utf32_decode be r) else None)"
| "utf32_decode be [] = Some []"
| "utf32_decode be _ = None"

datatype encoding = UTF8 | UTF8_SIG | UTF16 | UTF16_LE | UTF16_BE | UTF32 | UTF32_LE | UTF32_BE

definition BOM_UTF8 :: string where
  "BOM_UTF8 = [CHR 0xEF, CHR 0xBB, CHR 0xBF]"

definition BOM_UTF16_LE :: string where
  "BOM_UTF16_LE = [CHR 0xFF, CHR 0xFE]"

definition BOM_UTF16_BE :: string where
  "BOM_UTF16_BE = [CHR 0xFE, CHR 0xFF]"

definition BOM_UTF32_LE :: string where
  "BOM_UTF32_LE = [CHR 0xFF, CHR 0xFE, CHR 0x00, CHR 0x00]"

definition BOM_UTF32_BE :: string where
  "BOM_UTF32_BE = [CHR 0x00, CHR 0x00, CHR 0xFE, CHR 0xFF]"

definition startswith :: "string \<Rightarrow> string \<Rightarrow> bool" where
  "startswith s p \<longleftrightarrow> take (length p) s = p"

text \<open>\<^verbatim>\<open>json.detect_encoding\<close>.\<close>

definition detect_encoding :: "string \<Rightarrow> encoding" where
  "detect_encoding b =
     (if startswith b BOM_UTF32_BE \<or> startswith b BOM_UTF32_LE then UTF32
      else if startswith b BOM_UTF16_BE \<or> startswith b BOM_UTF16_LE then UTF16
      else if startswith b BOM_UTF8 then UTF8_SIG
      else if 4 \<le> length b then
        (if b ! 0 = CHR 0x00 then (if b ! 1 \<noteq> CHR 0x00 then UTF16_BE else UTF32_BE)
         else if b ! 1 = CHR 0x00 then
           (if b ! 2 \<noteq> CHR 0x00 \<or> b ! 3 \<noteq> CHR 0x00 then UTF16_LE else UTF32_LE)
         else UTF8)
      else if length b = 2 then
        (if b ! 0 = CHR 0x00 then UTF16_BE
         else if b ! 1 = CHR 0x00 then UTF16_LE
         else UTF8)
      else UTF8)"

definition decode_points :: "encoding \<Rightarrow> string \<Rightarrow> nat list option" where
  "decode_points enc b =
     (case enc of
        UTF8 \<Rightarrow> utf8_decode b
      | UTF8_SIG \<Rightarrow> utf8_decode (if startswith b BOM_UTF8 then drop 3 b else b)
      | UTF16_LE \<Rightarrow> utf16_decode False b
      | UTF16_BE \<Rightarrow> utf16_decode True b
      | UTF16 \<Rightarrow>
          (if startswith b BOM_UTF16_LE then utf16_decode False (drop 2 b)
           else if startswith b BOM_UTF16_BE then utf16_decode True (drop 2 b)
           else utf16_decode False b)
      | UTF32_LE \<Rightarrow> utf32_decode False b
      | UTF32_BE \<Rightarrow> utf32_decode True b
      | UTF32 \<Rightarrow>
          (if startswith b BOM_UTF32_LE then utf32_decode False (drop 4 b)
           else if startswith b BOM_UTF32_BE then utf32_decode True (drop 4 b)
           else utf32_decode False b))"

text \<open>\<^verbatim>\<open>s.decode(detect_encoding(s), 'surrogatepass')\<close>, the result again as UTF-8.\<close>

definition bytes_decode :: "string \<Rightarrow> error + string" where
  "bytes_decode b =
     (case decode_points (detect_encoding b) b of
        None \<Rightarrow> Inl UnicodeDecodeError
      | Some ps \<Rightarrow> Inr (concat (map utf8_encode ps)))"

subsection \<open>Scanning strings and numbers\<close>

definition is_ws :: "char \<Rightarrow> bool" where
  "is_ws c \<longleftrightarrow> c = CHR '' '' \<or> c = CHR 0x09 \<or> c = CHR 0x0A \<or> c = CHR 0x0D"

definition skip_ws :: "string \<Rightarrow> string" where
  "skip_ws s = dropWhile is_ws s"

definition is_digit :: "char \<Rightarrow> bool" where
  "is_digit c \<longleftrightarrow> 48 \<le> (of_char c :: nat) \<and> (of_char c :: nat) \<le> 57"

definition hexval :: "char \<Rightarrow> nat option" where
  "hexval c =
     (let n = (of_char c :: nat) in
      if 48 \<le> n \<and> n \<le> 57 then Some (n - 48)
      else if 97 \<le> n \<and> n \<le> 102 then Some (n - 87)
      else if 65 \<le> n \<and> n \<le> 70 then Some (n - 55)
      else None)"

text \<open>\<^verbatim>\<open>_decode_uXXXX\<close>: the four hexadecimal digits after \<^verbatim>\<open>\u\<close>.\<close>

definition decode_uXXXX :: "string \<Rightarrow> nat option" where
  "decode_uXXXX s =
     (case s of
        a # b # c # d # _ \<Rightarrow>
          (case (hexval a, hexval b, hexval c, hexval d) of
             (Some x, Some y, Some z, Some w) \<Rightarrow> Some (((x * 16 + y) * 16 + z) * 16 + w)
           | _ \<Rightarrow> None)
      | _ \<Rightarrow> None)"

text \<open>The table \<^verbatim>\<open>BACKSLASH\<close>.\<close>

definition backslash :: "char \<Rightarrow> char option" where
  "backslash e =
     (if e = CHR 0x22 then Some (CHR 0x22)
      else if e = CHR 0x5C then Some (CHR 0x5C)
      else if e = CHR ''/'' then Some (CHR ''/'')
      else if e = CHR ''b'' then Some (CHR 0x08)
      else if e = CHR ''f'' then Some (CHR 0x0C)
      else if e = CHR ''n'' then Some (CHR 0x0A)
      else if e = CHR ''r'' then Some (CHR 0x0D)
      else if e = CHR ''t'' then Some (CHR 0x09)
      else None)"

text \<open>
  \<^verbatim>\<open>scanstring\<close> in strict mode, from the character after the opening quote: the text
  collected so far, then the input. The result is the decoded string and the input
  after the closing quote; \<open>None\<close> is a \<^verbatim>\<open>JSONDecodeError\<close>.
\<close>

function scanstring :: "string \<Rightarrow> string \<Rightarrow> (string \<times> string) option" where
  "scanstring acc [] = None"
| "scanstring acc (c # cs) =
     (if c = CHR 0x22 then Some (acc, cs)
      else if c = CHR 0x5C then
        (case cs of
           [] \<Rightarrow> None
         | e # r \<Rightarrow>
             if e \<noteq> CHR ''u'' then
               (case backslash e of
                  None \<Rightarrow> None
                | Some ch \<Rightarrow> scanstring (acc @ [ch]) r)
             else
               (case decode_uXXXX r of
                  None \<Rightarrow> None
                | Some uni \<Rightarrow>
                    if 0xD800 \<le> uni \<and> uni \<le> 0xDBFF \<and> take 2 (drop 4 r) = [CHR 0x5C, CHR ''u''] then
                      (case decode_uXXXX (drop 6 r) of
                         None \<Rightarrow> None
                       | Some uni2 \<Rightarrow>
                           if 0xDC00 \<le> uni2 \<and> uni2 \<le> 0xDFFF
                           then scanstring
                                  (acc @ utf8_encode (0x10000 + (uni - 0xD800) * 1024 + (uni2 - 0xDC00)))
                                  (drop 10 r)
                           else scanstring (acc @ utf8_encode uni) (drop 4 r))
                    else scanstring (acc @ utf8_encode uni) (drop 4 r)))
      else if (of_char c :: nat) < 0x20 then None
      else scanstring (acc @ [c]) cs)"
  by pat_completeness auto
termination
  by (relation "measure (\<lambda>(acc, s). length s)") auto

declare scanstring.simps [simp del]

text \<open>
  \<^verbatim>\<open>NUMBER_RE\<close>, \<^verbatim>\<open>(-?(?:0|[1-9]\d*))(\.\d+)?([eE][-+]?\d+)?\<close>: the fraction and the
  exponent are taken only when complete.
\<close>

definition scan_frac :: "string \<Rightarrow> string \<times> string" where
  "scan_frac s =
     (case s of
        c # r \<Rightarrow>
          if c = CHR ''.'' \<and> takeWhile is_digit r \<noteq> []
          then (c # takeWhile is_digit r, dropWhile is_digit r)
          else ([], s)
      | [] \<Rightarrow> ([], s))"

definition scan_exp :: "string \<Rightarrow> string \<times> string" where
  "scan_exp s =
     (case s of
        e # r \<Rightarrow>
          if e = CHR ''e'' \<or> e = CHR ''E'' then
            (let (sg, r') = (case r of
                               g # t \<Rightarrow> if g = CHR ''+'' \<or> g = CHR ''-'' then ([g], t) else ([], r)
                             | [] \<Rightarrow> ([], r))
             in if takeWhile is_digit r' \<noteq> []
                then (e # sg @ takeWhile is_digit r', dropWhile is_digit r')
                else ([], s))
          else ([], s)
      | [] \<Rightarrow> ([], s))"

definition scan_integer :: "string \<Rightarrow> (string \<times> string) option" where
  "scan_integer s =
     (let (sg, r) = (case s of
                       c # t \<Rightarrow> if c = CHR ''-'' then ([c], t) else ([], s)
                     | [] \<Rightarrow> ([], s))
      in case r of
           [] \<Rightarrow> None
         | d # t \<Rightarrow>
             if d = CHR ''0'' then Some (sg @ [d], t)
             else if is_digit d then Some (sg @ d # takeWhile is_digit t, dropWhile is_digit t)
             else None)"

text \<open>\<^verbatim>\<open>int(s)\<close> on an optional sign and decimal digits.\<close>

definition int_of_digits :: "string \<Rightarrow> int" where
  "int_of_digits s =
     (let val = (\<lambda>ds. foldl (\<lambda>a c. 10 * a + (of_char c - 48)) (0::int) ds)
      in case s of
           c # t \<Rightarrow> if c = CHR ''-'' then - val t else if c = CHR ''+'' then val t else val s
         | [] \<Rightarrow> 0)"

text \<open>\<^verbatim>\<open>float(integer + frac + exp)\<close> on the three groups of \<^verbatim>\<open>NUMBER_RE\<close>.\<close>

definition float_of_literal :: "string \<Rightarrow> string \<Rightarrow> string \<Rightarrow> pyfloat" where
  "float_of_literal integer frac ex =
     (let s = (take 1 integer = ''-'');
          ipart = (if s then drop 1 integer else integer);
          fpart = drop 1 frac;
          d = int_of_digits (ipart @ fpart);
          k = int_of_digits (drop 1 ex) - int (length fpart)
      in double_of_ratio s (d * pow 10 k) (pow 10 (- k)))"

definition scan_number :: "string \<Rightarrow> (pyval \<times> string) option" where
  "scan_number s =
     (case scan_integer s of
        None \<Rightarrow> None
      | Some (integer, r) \<Rightarrow>
          (let (frac, r1) = scan_frac r; (ex, r2) = scan_exp r1
           in if frac \<noteq> [] \<or> ex \<noteq> [] then Some (PFloat (float_of_literal integer frac ex), r2)
              else Some (PInt (int_of_digits integer), r2)))"

text \<open>
  The part of \<^verbatim>\<open>_scan_once\<close> that reads a value without nesting: the three keywords,
  a number, and the constants \<^verbatim>\<open>NaN\<close>, \<^verbatim>\<open>Infinity\<close> and \<^verbatim>\<open>-Infinity\<close>, in this order.
\<close>

definition scan_atom :: "string \<Rightarrow> (pyval \<times> string) option" where
  "scan_atom s =
     (if take 4 s = ''null'' then Some (PNone, drop 4 s)
      else if take 4 s = ''true'' then Some (PBool True, drop 4 s)
      else if take 5 s = ''false'' then Some (PBool False, drop 5 s)
      else case scan_number s of
             Some r \<Rightarrow> Some r
           | None \<Rightarrow>
               if take 3 s = ''NaN'' then Some (PFloat NaN, drop 3 s)
               else if take 8 s = ''Infinity'' then Some (PFloat (Infinite False), drop 8 s)
               else if take 9 s = ''-Infinity'' then Some (PFloat (Infinite True), drop 9 s)
               else None)"

text \<open>
  The head of an object member: the key after its opening quote, optional white space,
  the colon, optional white space (\<^verbatim>\<open>JSONObject\<close>, first half of the loop body).
\<close>

definition scan_key :: "string \<Rightarrow> (string \<times> string) option" where
  "scan_key s =
     (case scanstring [] s of
        None \<Rightarrow> None
      | Some (key, r) \<Rightarrow>
          (case skip_ws r of
             c # r' \<Rightarrow> if c = CHR '':'' then Some (key, skip_ws r') else None
           | [] \<Rightarrow> None))"

text \<open>\<^verbatim>\<open>dict(pairs)\<close> adds the pairs one by one: a repeated key keeps its place and takes
  the later value.\<close>

fun dict_set :: "(pyval \<times> pyval) list \<Rightarrow> pyval \<Rightarrow> pyval \<Rightarrow> (pyval \<times> pyval) list" where
  "dict_set [] k v = [(k, v)]"
| "dict_set ((k', v') # d) k v = (if k' = k then (k', v) # d else (k', v') # dict_set d k v)"

subsection \<open>Every scanner consumes input\<close>

lemma skip_ws_length: "length (skip_ws s) \<le> length s"
  by (simp add: skip_ws_def length_dropWhile_le)

lemma skip_ws_Cons_shorter: "skip_ws s = c # r \<Longrightarrow> length r < length s"
  using skip_ws_length [of s] by simp

lemma scanstring_shorter: "scanstring acc s = Some (t, r) \<Longrightarrow> length r < length s"
proof (induction acc s rule: scanstring.induct)
  case (1 acc)
  then show ?case by (simp add: scanstring.simps)
next
  case (2 acc c cs)
  from "2.prems" have *: "scanstring acc (c # cs) = Some (t, r)" .
  show ?case
    using "2.IH" * unfolding scanstring.simps(2) [of acc c cs]
    by (fastforce split: if_splits list.splits option.splits)
qed

lemma scan_frac_length: "scan_frac s = (f, r) \<Longrightarrow> length r \<le> length s"
  by (auto simp: scan_frac_def length_dropWhile_le le_SucI split: list.splits if_splits)

lemma scan_exp_length: "scan_exp s = (e, r) \<Longrightarrow> length r \<le> length s"
  by (auto simp: scan_exp_def length_dropWhile_le le_SucI Let_def split: list.splits if_splits intro: le_trans [OF length_dropWhile_le])

lemma scan_integer_shorter: "scan_integer s = Some (i, r) \<Longrightarrow> length r < length s"
  by (auto simp: scan_integer_def Let_def less_Suc_eq_le length_dropWhile_le le_SucI split: list.splits if_splits)

lemma scan_number_shorter: "scan_number s = Some (v, r) \<Longrightarrow> length r < length s"
  by (auto simp: scan_number_def Let_def split: option.splits prod.splits if_splits
      dest!: scan_integer_shorter scan_frac_length scan_exp_length)

lemma scan_atom_shorter: "scan_atom s = Some (v, r) \<Longrightarrow> length r < length s"
  by (cases s) (auto simp: scan_atom_def split: if_splits option.splits dest!: scan_number_shorter)

lemma scan_key_shorter: "scan_key s = Some (k, r) \<Longrightarrow> length r < length s"
proof -
  assume "scan_key s = Some (k, r)"
  then obtain r1 r2 where a: "scanstring [] s = Some (k, r1)"
    and b: "skip_ws r1 = CHR '':'' # r2" and c: "r = skip_ws r2"
    by (auto simp: scan_key_def split: option.splits list.splits if_splits)
  have "length r \<le> length r2" using c skip_ws_length by simp
  also have "\<dots> < length r1" using b by (rule skip_ws_Cons_shorter)
  also have "\<dots> < length s" using a by (rule scanstring_shorter)
  finally show ?thesis .
qed

subsection \<open>Nested values\<close>

text \<open>
  \<^verbatim>\<open>_scan_once\<close>, \<^verbatim>\<open>JSONArray\<close> and \<^verbatim>\<open>JSONObject\<close> call each other recursively. Here the
  pending arrays and objects are an explicit stack, innermost first: an array with the
  elements read so far, or an object with the items read so far and the key whose value
  is being read. \<open>scan_value\<close> reads a value at the head of the input (white space
  already skipped, as every caller of \<^verbatim>\<open>scan_once\<close> does); \<open>after_value\<close> continues
  after a value: the next element or member, the closing bracket, or, with nothing
  pending, the end of the document (\<^verbatim>\<open>JSONDecoder.decode\<close>: only white space may follow).
  \<open>None\<close> is a \<^verbatim>\<open>JSONDecodeError\<close>.
\<close>

datatype frame = InArray "pyval list" | InObject "(pyval \<times> pyval) list" string

function scan_value :: "frame list \<Rightarrow> string \<Rightarrow> pyval option"
  and after_value :: "frame list \<Rightarrow> pyval \<Rightarrow> string \<Rightarrow> pyval option" where
  "scan_value stk s =
     (case s of
        [] \<Rightarrow> None
      | c # r \<Rightarrow>
          if c = CHR 0x22 then
            (case scanstring [] r of
               None \<Rightarrow> None
             | Some (t, r') \<Rightarrow> after_value stk (PStr t) r')
          else if c = CHR 0x7B then
            (case skip_ws r of
               [] \<Rightarrow> None
             | d # r' \<Rightarrow>
                 if d = CHR 0x7D then after_value stk (PDict []) r'
                 else if d = CHR 0x22 then
                   (case scan_key r' of
                      None \<Rightarrow> None
                    | Some (key, r'') \<Rightarrow> scan_value (InObject [] key # stk) r'')
                 else None)
          else if c = CHR 0x5B then
            (case skip_ws r of
               [] \<Rightarrow> None
             | d # r' \<Rightarrow>
                 if d = CHR 0x5D then after_value stk (PList []) r'
                 else scan_value (InArray [] # stk) (d # r'))
          else
            (case scan_atom s of
               None \<Rightarrow> None
             | Some (v, r') \<Rightarrow> after_value stk v r'))"
| "after_value stk v s =
     (case stk of
        [] \<Rightarrow> if skip_ws s = [] then Some v else None
      | InArray vs # stk' \<Rightarrow>
          (case skip_ws s of
             [] \<Rightarrow> None
           | c # r \<Rightarrow>
               if c = CHR 0x5D then after_value stk' (PList (vs @ [v])) r
               else if c = CHR '','' then scan_value (InArray (vs @ [v]) # stk') (skip_ws r)
               else None)
      | InObject kvs key # stk' \<Rightarrow>
          (case skip_ws s of
             [] \<Rightarrow> None
           | c # r \<Rightarrow>
               if c = CHR 0x7D then after_value stk' (PDict (dict_set kvs (PStr key) v)) r
               else if c = CHR '','' then
                 (case skip_ws r of
                    [] \<Rightarrow> None
                  | d # r' \<Rightarrow>
                      if d = CHR 0x22 then
                        (case scan_key r' of
                           None \<Rightarrow> None
                         | Some (key', r'') \<Rightarrow>
                             scan_value (InObject (dict_set kvs (PStr key) v) key' # stk') r'')
                      else None)
               else None))"
  by pat_completeness auto
termination
proof (relation "measure (\<lambda>x. case x of Inl (stk, s) \<Rightarrow> length s | Inr (stk, v, s) \<Rightarrow> length s)",
    goal_cases)
  case 1
  show ?case by simp
next
  case (2 stk s c r x t r')
  then show ?case by (auto dest: scanstring_shorter)
next
  case (3 stk s c r d r')
  then show ?case by (auto dest: skip_ws_Cons_shorter)
next
  case (4 stk s c r d r' x key r'')
  then show ?case by (auto dest!: skip_ws_Cons_shorter scan_key_shorter)
next
  case (5 stk s c r d r')
  then show ?case by (auto dest!: skip_ws_Cons_shorter)
next
  case (6 stk s c r d r')
  then show ?case using skip_ws_length [of r] by auto
next
  case (7 stk s c r x v r')
  then show ?case by (auto dest: scan_atom_shorter)
next
  case (8 stk v s fr stk' vs c r)
  then show ?case by (auto dest: skip_ws_Cons_shorter)
next
  case (9 stk v s fr stk' vs c r)
  then show ?case using skip_ws_length [of r] by (auto dest!: skip_ws_Cons_shorter)
next
  case (10 stk v s fr stk' kvs key c r)
  then show ?case by (auto dest: skip_ws_Cons_shorter)
next
  case (11 stk v s fr stk' kvs key c r d r' x key' r'')
  then show ?case by (auto dest!: skip_ws_Cons_shorter scan_key_shorter)
qed

declare scan_value.simps [simp del] after_value.simps [simp del]

text \<open>\<^verbatim>\<open>JSONDecoder.decode\<close>: leading white space, one value, trailing white space.\<close>

definition decode :: "string \<Rightarrow> error + pyval" where
  "decode s = (case scan_value [] (skip_ws s) of None \<Rightarrow> Inl JSONDecodeError | Some v \<Rightarrow> Inr v)"

text \<open>
  \<^verbatim>\<open>json.loads\<close>: a \<^verbatim>\<open>str\<close> must not start with a byte order mark; \<^verbatim>\<open>bytes\<close> and
  \<^verbatim>\<open>bytearray\<close> are decoded first; anything else is a \<^verbatim>\<open>TypeError\<close>.
\<close>

definition json_loads :: "pyval \<Rightarrow> error + pyval" where
  "json_loads s =
     (case s of
        PStr t \<Rightarrow> if startswith t BOM_UTF8 then Inl JSONDecodeError else decode t
      | PBytes b \<Rightarrow> (case bytes_decode b of Inl e \<Rightarrow> Inl e | Inr t \<Rightarrow> decode t)
      | PByteArray b \<Rightarrow> (case bytes_decode b of Inl e \<Rightarrow> Inl e | Inr t \<Rightarrow> decode t)
      | _ \<Rightarrow> Inl TypeError)"

section \<open>The \<^verbatim>\<open>json\<close> module: encoding\<close>

text \<open>
  \<^verbatim>\<open>json.dumps\<close> with its default arguments (\<^verbatim>\<open>ensure_ascii\<close>, \<^verbatim>\<open>allow_nan\<close>, separators
  \<^verbatim>\<open>', '\<close> and \<^verbatim>\<open>': '\<close>, no indentation, keys not sorted, no \<^verbatim>\<open>default\<close> hook), after
  \<^verbatim>\<open>json/encoder.py\<close>.
\<close>

definition hexdigit :: "nat \<Rightarrow> char" where
  "hexdigit n = (if n < 10 then char_of (48 + n) else char_of (87 + n))"

definition hex4 :: "nat \<Rightarrow> string" where
  "hex4 n = [hexdigit (n div 4096 mod 16), hexdigit (n div 256 mod 16),
             hexdigit (n div 16 mod 16), hexdigit (n mod 16)]"

text \<open>The replacement of one code point in \<^verbatim>\<open>py_encode_basestring_ascii\<close>.\<close>

definition escape_point :: "nat \<Rightarrow> string" where
  "escape_point n =
     (if n = 0x5C then [CHR 0x5C, CHR 0x5C]
      else if n = 0x22 then [CHR 0x5C, CHR 0x22]
      else if n = 0x08 then [CHR 0x5C, CHR ''b'']
      else if n = 0x0C then [CHR 0x5C, CHR ''f'']
      else if n = 0x0A then [CHR 0x5C, CHR ''n'']
      else if n = 0x0D then [CHR 0x5C, CHR ''r'']
      else if n = 0x09 then [CHR 0x5C, CHR ''t'']
      else if 0x20 \<le> n \<and> n \<le> 0x7E then [char_of n]
      else if n < 0x10000 then [CHR 0x5C, CHR ''u''] @ hex4 n
      else
        (let m = n - 0x10000
         in [CHR 0x5C, CHR ''u''] @ hex4 (0xD800 + m div 1024 mod 1024)
            @ [CHR 0x5C, CHR ''u''] @ hex4 (0xDC00 + m mod 1024)))"

definition encode_basestring_ascii :: "string \<Rightarrow> string" where
  "encode_basestring_ascii s = [CHR 0x22] @ concat (map escape_point (points s)) @ [CHR 0x22]"

text \<open>\<^verbatim>\<open>floatstr\<close>: the three special values have names of their own.\<close>

definition floatstr :: "pyfloat \<Rightarrow> string" where
  "floatstr f =
     (case f of
        NaN \<Rightarrow> ''NaN''
      | Infinite s \<Rightarrow> (if s then ''-Infinity'' else ''Infinity'')
      | Finite s m e \<Rightarrow> float_repr f)"

text \<open>
  A key of a \<^verbatim>\<open>dict\<close> becomes a string: a \<^verbatim>\<open>str\<close> is itself, a float, a boolean, \<^verbatim>\<open>None\<close>
  and an \<^verbatim>\<open>int\<close> are written out, any other key is a \<^verbatim>\<open>TypeError\<close> (\<^verbatim>\<open>skipkeys\<close> is
  off).
\<close>

definition key_str :: "pyval \<Rightarrow> error + string" where
  "key_str k =
     (case k of
        PStr t \<Rightarrow> Inr t
      | PFloat r \<Rightarrow> Inr (floatstr r)
      | PBool b \<Rightarrow> Inr (if b then ''true'' else ''false'')
      | PNone \<Rightarrow> Inr ''null''
      | PInt i \<Rightarrow> Inr (str_int i)
      | _ \<Rightarrow> Inl TypeError)"

fun join :: "string \<Rightarrow> string list \<Rightarrow> string" where
  "join sep [] = []"
| "join sep [x] = x"
| "join sep (x # y # ys) = x @ sep @ join sep (y # ys)"

fun encode :: "pyval \<Rightarrow> error + string"
  and encode_list :: "pyval list \<Rightarrow> error + string list"
  and encode_items :: "(pyval \<times> pyval) list \<Rightarrow> error + string list" where
  "encode PNone = Inr ''null''"
| "encode (PBool b) = Inr (if b then ''true'' else ''false'')"
| "encode (PInt i) = Inr (str_int i)"
| "encode (PFloat r) = Inr (floatstr r)"
| "encode (PStr t) = Inr (encode_basestring_ascii t)"
| "encode (PBytes b) = Inl TypeError"
| "encode (PByteArray b) = Inl TypeError"
| "encode (PList xs) =
     (case encode_list xs of
        Inl e \<Rightarrow> Inl e
      | Inr parts \<Rightarrow> Inr (''['' @ join '', '' parts @ '']''))"
| "encode (PDict kvs) =
     (case encode_items kvs of
        Inl e \<Rightarrow> Inl e
      | Inr parts \<Rightarrow> Inr (''{'' @ join '', '' parts @ ''}''))"
| "encode_list [] = Inr []"
| "encode_list (x # xs) =
     (case encode x of
        Inl e \<Rightarrow> Inl e
      | Inr t \<Rightarrow> (case encode_list xs of Inl e \<Rightarrow> Inl e | Inr ts \<Rightarrow> Inr (t # ts)))"
| "encode_items [] = Inr []"
| "encode_items ((k, v) # kvs) =
     (case key_str k of
        Inl e \<Rightarrow> Inl e
      | Inr ks \<Rightarrow>
          (case encode v of
             Inl e \<Rightarrow> Inl e
           | Inr vs \<Rightarrow>
               (case encode_items kvs of
                  Inl e \<Rightarrow> Inl e
                | Inr ts \<Rightarrow> Inr ((encode_basestring_ascii ks @ '': '' @ vs) # ts))))"

definition json_dumps :: "pyval \<Rightarrow> error + string" where
  "json_dumps v = encode v"

section \<open>The \<^verbatim>\<open>requests\<close> library\<close>

text \<open>
  \<^verbatim>\<open>requests.request(method, url, headers=headers, data=data)\<close> is the transport and not
  part of the client. A call is recorded as a \<open>request\<close>; its \<open>data\<close> is the Python
  value handed over as body, \<open>PNone\<close> when there is none. The remote side is a parameter:
  a function from the request to the response received or the exception raised.
\<close>

record request =
  req_method :: string
  req_url :: string
  req_headers :: "(string \<times> string) list"
  req_data :: pyval

record response =
  status_code :: int
  content :: string

type_synonym transport = "request \<Rightarrow> error + response"

text \<open>
  \<^verbatim>\<open>Response.raise_for_status\<close> raises \<^verbatim>\<open>HTTPError\<close> for the client errors 400 to 499 and
  the server errors 500 to 599, and for no other status.
\<close>

definition raise_for_status :: "response \<Rightarrow> error option" where
  "raise_for_status res =
     (if 400 \<le> status_code res \<and> status_code res < 500 then Some (HTTPError (status_code res) (content res))
      else if 500 \<le> status_code res \<and> status_code res < 600 then Some (HTTPError (status_code res) (content res))
      else None)"

section \<open>The client object\<close>

text \<open>
  \<^verbatim>\<open>Caddy.__init__(host, port=2019, protocol='http', headers_origin=None)\<close> stores its
  four arguments. The host and the protocol are strings and the port is an \<^verbatim>\<open>int\<close>.
\<close>

record caddy =
  host :: string
  port :: int
  protocol :: string
  headers_origin :: "string option"

definition Caddy :: "string \<Rightarrow> int \<Rightarrow> string \<Rightarrow> string option \<Rightarrow> caddy" where
  "Caddy h p pr ho = \<lparr>host = h, port = p, protocol = pr, headers_origin = ho\<rparr>"

subsection \<open>Location resolution\<close>

text \<open>\<^verbatim>\<open>_generate_url\<close>: \<^verbatim>\<open>'{}://{}:{}/'.format(self.protocol, self.host, self.port)\<close>.\<close>

definition generate_url :: "caddy \<Rightarrow> string" where
  "generate_url c = protocol c @ ''://'' @ host c @ '':'' @ str_int (port c) @ ''/''"

text \<open>
  \<^verbatim>\<open>_generate_url_by_path\<close>: three \<^verbatim>\<open>if\<close> statements in sequence, each rewriting \<^verbatim>\<open>_url\<close>.
\<close>

definition generate_url_by_path :: "caddy \<Rightarrow> string option \<Rightarrow> string option \<Rightarrow> string" where
  "generate_url_by_path c path config_id =
     (let url0 = generate_url c;
          url1 = (if \<not> truthy path \<and> \<not> truthy config_id then url0 @ ''config/'' else url0);
          url2 = (if truthy config_id then url1 @ ''id/'' @ the config_id else url1);
          url3 = (if truthy path then url2 @ ''/'' @ lstrip_slash (the path) else url2)
      in url3)"

subsection \<open>Payload normalization\<close>

text \<open>
  \<^verbatim>\<open>_prepare_config_data\<close>: a \<^verbatim>\<open>dict\<close> is returned as it is. Anything else goes through
  \<^verbatim>\<open>json.loads\<close>; the \<^verbatim>\<open>except\<close> clause catches \<^verbatim>\<open>JSONDecodeError\<close> only, raises it anew
  unless \<^verbatim>\<open>type(config) == str\<close>, and otherwise falls through to \<^verbatim>\<open>return config\<close> with
  \<^verbatim>\<open>config\<close> still the argument. Every other exception of \<^verbatim>\<open>json.loads\<close> propagates.
\<close>

definition prepare_config_data :: "pyval \<Rightarrow> error + pyval" where
  "prepare_config_data config =
     (if \<not> is_dict config then
        (case json_loads config of
           Inr parsed \<Rightarrow> Inr parsed
         | Inl JSONDecodeError \<Rightarrow> if \<not> is_str config then Inl JSONDecodeError else Inr config
         | Inl e \<Rightarrow> Inl e)
      else Inr config)"

subsection \<open>The transport invoker\<close>

text \<open>
  \<^verbatim>\<open>_execute\<close>. The result is the list of requests handed to \<^verbatim>\<open>requests.request\<close> (none
  or one) and the outcome: the exception raised or \<^verbatim>\<open>res.content\<close>. The \<^verbatim>\<open>print\<close> of the
  body to standard output changes neither and is left out.
\<close>

definition execute ::
  "transport \<Rightarrow> caddy \<Rightarrow> string \<Rightarrow> string \<Rightarrow> pyval \<Rightarrow> request list \<times> (error + string)" where
  "execute remote c url method data =
     (let headers0 = [(''Content-Type'', ''application/json'')];
          headers = (if truthy (headers_origin c)
                     then headers0 @ [(''Origin'', the (headers_origin c))] else headers0)
      in case (if is_dict data \<or> is_str data
               then (case json_dumps data of Inl e \<Rightarrow> Inl e | Inr t \<Rightarrow> Inr (PStr t))
               else Inr data) of
           Inl e \<Rightarrow> ([], Inl e)
         | Inr body \<Rightarrow>
             (let rq = \<lparr>req_method = method, req_url = url, req_headers = headers, req_data = body\<rparr>
              in case remote rq of
                   Inl e \<Rightarrow> ([rq], Inl e)
                 | Inr res \<Rightarrow>
                     (case raise_for_status res of
                        Some e \<Rightarrow> ([rq], Inl e)
                      | None \<Rightarrow> ([rq], Inr (content res)))))"

subsection \<open>The six operations\<close>

text \<open>\<^verbatim>\<open>config(path=None, config_id=None, raw=False)\<close>: \<^verbatim>\<open>res\<close> is \<^verbatim>\<open>bytes\<close>.\<close>

definition config ::
  "transport \<Rightarrow> caddy \<Rightarrow> string option \<Rightarrow> string option \<Rightarrow> bool \<Rightarrow> request list \<times> (error + pyval)" where
  "config remote c path config_id raw =
     (let url = generate_url_by_path c path config_id;
          (sent, res) = execute remote c url ''GET'' PNone
      in case res of
           Inl e \<Rightarrow> (sent, Inl e)
         | Inr body \<Rightarrow>
             if \<not> raw then (sent, json_loads (PBytes body))
             else (sent, Inr (PBytes body)))"

definition load :: "transport \<Rightarrow> caddy \<Rightarrow> pyval \<Rightarrow> request list \<times> (error + string)" where
  "load remote c cfg =
     (case prepare_config_data cfg of
        Inl e \<Rightarrow> ([], Inl e)
      | Inr cfg' \<Rightarrow> execute remote c (generate_url_by_path c (Some ''config/'') None) ''POST'' cfg')"

definition add ::
  "transport \<Rightarrow> caddy \<Rightarrow> pyval \<Rightarrow> string option \<Rightarrow> string option \<Rightarrow> request list \<times> (error + string)" where
  "add remote c cfg path config_id =
     (case prepare_config_data cfg of
        Inl e \<Rightarrow> ([], Inl e)
      | Inr cfg' \<Rightarrow> execute remote c (generate_url_by_path c path config_id) ''PUT'' cfg')"

definition update ::
  "transport \<Rightarrow> caddy \<Rightarrow> pyval \<Rightarrow> string option \<Rightarrow> string option \<Rightarrow> request list \<times> (error + string)" where
  "update remote c cfg path config_id =
     (case prepare_config_data cfg of
        Inl e \<Rightarrow> ([], Inl e)
      | Inr cfg' \<Rightarrow> execute remote c (generate_url_by_path c path config_id) ''PATCH'' cfg')"

definition stop :: "transport \<Rightarrow> caddy \<Rightarrow> request list \<times> (error + string)" where
  "stop remote c = execute remote c (generate_url_by_path c (Some ''stop'') None) ''POST'' PNone"

definition delete :: "transport \<Rightarrow> caddy \<Rightarrow> string option \<Rightarrow> request list \<times> (error + string)" where
  "delete remote c path = execute remote c (generate_url_by_path c path None) ''DELETE'' PNone"

section \<open>Auxiliary definitions for the statements\<close>

text \<open>The values \<^verbatim>\<open>json.loads\<close> decodes before parsing: \<^verbatim>\<open>isinstance(s, (bytes, bytearray))\<close>.\<close>

fun is_bytes :: "pyval \<Rightarrow> bool" where
  "is_bytes (PBytes _) = True"
| "is_bytes (PByteArray _) = True"
| "is_bytes _ = False"

text \<open>The values a JSON array or object decodes to.\<close>

fun is_container :: "pyval \<Rightarrow> bool" where
  "is_container (PList _) = True"
| "is_container (PDict _) = True"
| "is_container _ = False"

text \<open>
  The specification's wording of the path handling, "exactly one single leading path
  separator stripped": at most the first character is removed. The code uses
  \<open>lstrip_slash\<close> instead.
\<close>

definition strip_one_slash :: "string \<Rightarrow> string" where
  "strip_one_slash p = (case p of [] \<Rightarrow> [] | c # r \<Rightarrow> if c = CHR ''/'' then r else p)"

text \<open>
  The specification's success range of HTTP statuses: the successful class, 200 to 299.
  The code consults \<open>raise_for_status\<close> instead.
\<close>

definition in_success_range :: "response \<Rightarrow> bool" where
  "in_success_range res \<longleftrightarrow> 200 \<le> status_code res \<and> status_code res < 300"

text \<open>A remote service that answers every request with the given status and body.\<close>

definition answer :: "int \<Rightarrow> string \<Rightarrow> transport" where
  "answer st body rq = Inr \<lparr>status_code = st, content = body\<rparr>"

section \<open>The decoder never returns its argument\<close>

lemma utf8_encode_length:
  "length (utf8_encode n) = (if n < 0x80 then 1 else if n < 0x800 then 2 else if n < 0x10000 then 3 else 4)"
  by (simp add: utf8_encode_def)

lemma decode_uXXXX_length: "decode_uXXXX s = Some n \<Longrightarrow> 4 \<le> length s"
  by (auto simp: decode_uXXXX_def split: list.splits)

lemma scanstring_output_bounded:
  "length s \<le> n \<Longrightarrow> scanstring acc s = Some (t, r) \<Longrightarrow> length t + length r < length acc + length s"
proof (induction n arbitrary: s acc)
  case 0
  then show ?case by (simp add: scanstring.simps)
next
  case (Suc n)
  have IH: "length t + length r < length a + length s'"
    if "scanstring a s' = Some (t, r)" and "length s' \<le> n" for a s'
    using Suc.IH [OF that(2) that(1)] .
  show ?case
  proof (cases s)
    case Nil
    with Suc.prems show ?thesis by (simp add: scanstring.simps)
  next
    case (Cons c cs)
    have len: "length cs \<le> n" using Suc.prems(1) Cons by simp
    note eq = Suc.prems(2) [unfolded Cons scanstring.simps(2) [of acc c cs]]
    show ?thesis
    proof (cases "c = CHR 0x22")
      case True
      with eq Cons show ?thesis by simp
    next
      case nq: False
      show ?thesis
      proof (cases "c = CHR 0x5C")
        case False
        with nq eq have "scanstring (acc @ [c]) cs = Some (t, r)"
          by (simp split: if_splits)
        from IH [OF this len] Cons show ?thesis by simp
      next
        case bs: True
        then obtain e r0 where cs: "cs = e # r0"
          using eq nq by (cases cs) simp_all
        have len0: "length r0 \<le> n" using len cs by simp
        show ?thesis
        proof (cases "e = CHR ''u''")
          case False
          then obtain ch where "scanstring (acc @ [ch]) r0 = Some (t, r)"
            using eq nq bs cs by (auto split: option.splits)
          from IH [OF this len0] Cons cs show ?thesis by simp
        next
          case u: True
          then obtain uni where d: "decode_uXXXX r0 = Some uni"
            using eq nq bs cs by (auto split: option.splits)
          have l4: "4 \<le> length r0" using d by (rule decode_uXXXX_length)
          consider (pair) p where "scanstring (acc @ utf8_encode p) (drop 10 r0) = Some (t, r)"
            | (lone) "scanstring (acc @ utf8_encode uni) (drop 4 r0) = Some (t, r)"
            using eq nq bs cs u d by (auto split: option.splits if_splits)
          then show ?thesis
          proof cases
            case pair
            have "length (drop 10 r0) \<le> n" using len0 by simp
            from IH [OF pair this] l4 Cons cs show ?thesis
              by (simp add: utf8_encode_length split: if_splits)
          next
            case lone
            have "length (drop 4 r0) \<le> n" using len0 by simp
            from IH [OF lone this] l4 Cons cs show ?thesis
              by (simp add: utf8_encode_length split: if_splits)
          qed
        qed
      qed
    qed
  qed
qed

lemma scanstring_output:
  "scanstring [] s = Some (t, r) \<Longrightarrow> length t < length s"
  using scanstring_output_bounded [of s "length s" "[]" t r] by simp

lemma after_value_top: "after_value [] v s = Some w \<Longrightarrow> w = v"
  by (simp add: after_value.simps split: if_splits)

lemma nested_is_container:
  "length s \<le> n \<Longrightarrow>
     (scan_value stk s = Some w \<longrightarrow> stk \<noteq> [] \<longrightarrow> is_container w)
     \<and> (after_value stk v s = Some w \<longrightarrow> stk \<noteq> [] \<or> is_container v \<longrightarrow> is_container w)"
proof (induction n arbitrary: s stk v)
  case 0
  then have s: "s = []" by simp
  show ?case
    by (cases stk; cases "hd stk")
       (auto simp: s scan_value.simps after_value.simps skip_ws_def split: frame.splits)
next
  case (Suc n)
  have IH1: "is_container w"
    if "scan_value k s' = Some w" and "length s' \<le> n" and "k \<noteq> []" for k s'
    using Suc.IH [OF that(2), of k] that(1,3) by simp
  have IH2: "is_container w"
    if "after_value k u s' = Some w" and "length s' \<le> n" and "k \<noteq> [] \<or> is_container u" for k u s'
    using Suc.IH [OF that(2), of k u] that(1,3) by simp
  have sv: "is_container w" if res: "scan_value stk s = Some w" and ne: "stk \<noteq> []"
  proof (cases s)
    case Nil
    with res show ?thesis by (simp add: scan_value.simps)
  next
    case (Cons c r)
    have lr: "length r \<le> n" using Suc.prems Cons by simp
    note eq = res [unfolded Cons scan_value.simps [of stk "c # r"], simplified]
    consider (str) "c = CHR 0x22" | (obj) "c = CHR 0x7B" | (arr) "c = CHR 0x5B"
      | (atom) "c \<noteq> CHR 0x22" "c \<noteq> CHR 0x7B" "c \<noteq> CHR 0x5B"
      by blast
    then show ?thesis
    proof cases
      case str
      then obtain t r' where a: "scanstring [] r = Some (t, r')"
        and b: "after_value stk (PStr t) r' = Some w"
        using eq by (auto split: option.splits)
      have "length r' \<le> n" using scanstring_shorter [OF a] lr by simp
      from IH2 [OF b this] ne show ?thesis by simp
    next
      case obj
      then obtain d r' where a: "skip_ws r = d # r'"
        using eq by (auto split: list.splits)
      have l': "length r' \<le> n" using skip_ws_Cons_shorter [OF a] lr by simp
      consider (empty) "after_value stk (PDict []) r' = Some w"
        | (member) key r'' where "scan_key r' = Some (key, r'')"
            "scan_value (InObject [] key # stk) r'' = Some w"
        using eq obj a by (auto split: if_splits option.splits)
      then show ?thesis
      proof cases
        case empty
        from IH2 [OF empty l'] show ?thesis by simp
      next
        case member
        have "length r'' \<le> n" using scan_key_shorter [OF member(1)] l' by simp
        from IH1 [OF member(2) this] show ?thesis by simp
      qed
    next
      case arr
      then obtain d r' where a: "skip_ws r = d # r'"
        using eq by (auto split: list.splits)
      have l': "length r' \<le> n" using skip_ws_Cons_shorter [OF a] lr by simp
      have l'': "length (d # r') \<le> n" using skip_ws_length [of r] a lr by simp
      consider (empty) "after_value stk (PList []) r' = Some w"
        | (element) "scan_value (InArray [] # stk) (d # r') = Some w"
        using eq arr a by (auto split: if_splits)
      then show ?thesis
      proof cases
        case empty
        from IH2 [OF empty l'] show ?thesis by simp
      next
        case element
        from IH1 [OF element l''] show ?thesis by simp
      qed
    next
      case atom
      then obtain u r' where a: "scan_atom (c # r) = Some (u, r')"
        and b: "after_value stk u r' = Some w"
        using eq by (auto split: option.splits)
      have "length r' \<le> n" using scan_atom_shorter [OF a] lr by simp
      from IH2 [OF b this] ne show ?thesis by simp
    qed
  qed
  have av: "is_container w"
    if res: "after_value stk v s = Some w" and ne: "stk \<noteq> [] \<or> is_container v"
  proof (cases stk)
    case Nil
    with res ne after_value_top [of v s w] show ?thesis by simp
  next
    case (Cons fr stk')
    note eq0 = res [unfolded Cons after_value.simps [of "fr # stk'" v s], simplified]
    show ?thesis
    proof (cases fr)
      case (InArray vs)
      note eq = eq0 [unfolded InArray, simplified]
      then obtain c r where a: "skip_ws s = c # r"
        by (auto split: list.splits)
      have lr: "length r \<le> n" using skip_ws_Cons_shorter [OF a] Suc.prems by simp
      have lr': "length (skip_ws r) \<le> n" using skip_ws_length [of r] lr by simp
      consider (close) "after_value stk' (PList (vs @ [v])) r = Some w"
        | (more) "scan_value (InArray (vs @ [v]) # stk') (skip_ws r) = Some w"
        using eq a by (auto split: if_splits)
      then show ?thesis
      proof cases
        case close
        from IH2 [OF close lr] show ?thesis by simp
      next
        case more
        from IH1 [OF more lr'] show ?thesis by simp
      qed
    next
      case (InObject kvs key)
      note eq = eq0 [unfolded InObject, simplified]
      then obtain c r where a: "skip_ws s = c # r"
        by (auto split: list.splits)
      have lr: "length r \<le> n" using skip_ws_Cons_shorter [OF a] Suc.prems by simp
      consider (close) "after_value stk' (PDict (dict_set kvs (PStr key) v)) r = Some w"
        | (more) d r' key' r'' where "skip_ws r = d # r'" "scan_key r' = Some (key', r'')"
            "scan_value (InObject (dict_set kvs (PStr key) v) key' # stk') r'' = Some w"
        using eq a by (auto split: if_splits list.splits option.splits)
      then show ?thesis
      proof cases
        case close
        from IH2 [OF close lr] show ?thesis by simp
      next
        case more
        have "length r'' \<le> n"
          using scan_key_shorter [OF more(2)] skip_ws_Cons_shorter [OF more(1)] lr by simp
        from IH1 [OF more(3) this] show ?thesis by simp
      qed
    qed
  qed
  from sv av show ?case by blast
qed


lemma scan_atom_kind:
  "scan_atom s = Some (u, r) \<Longrightarrow> \<not> is_str u \<and> \<not> is_bytes u"
  by (auto simp: scan_atom_def scan_number_def Let_def
      split: if_splits option.splits prod.splits)

lemma scan_value_top:
  assumes res: "scan_value [] s = Some w"
  shows "\<not> is_bytes w \<and> (\<forall>t. w = PStr t \<longrightarrow> length t < length s)"
proof (cases s)
  case Nil
  with res show ?thesis by (simp add: scan_value.simps)
next
  case (Cons c r)
  note eq = res [unfolded Cons scan_value.simps [of "[]" "c # r"], simplified]
  note nested = nested_is_container [OF order_refl, THEN conjunct1, rule_format]
  consider (str) "c = CHR 0x22" | (obj) "c = CHR 0x7B" | (arr) "c = CHR 0x5B"
    | (atom) "c \<noteq> CHR 0x22" "c \<noteq> CHR 0x7B" "c \<noteq> CHR 0x5B"
    by blast
  then show ?thesis
  proof cases
    case str
    then obtain t r' where a: "scanstring [] r = Some (t, r')"
      and b: "after_value [] (PStr t) r' = Some w"
      using eq by (auto split: option.splits)
    from after_value_top [OF b] scanstring_output [OF a] Cons show ?thesis by simp
  next
    case obj
    then obtain d r' where a: "skip_ws r = d # r'"
      using eq by (auto split: list.splits)
    consider (empty) "after_value [] (PDict []) r' = Some w"
      | (member) key r'' where "scan_value [InObject [] key] r'' = Some w"
      using eq obj a by (auto split: if_splits option.splits)
    then have "is_container w"
    proof cases
      case empty
      from after_value_top [OF empty] show ?thesis by simp
    next
      case member
      from nested [OF member] show ?thesis by simp
    qed
    then show ?thesis by (cases w) simp_all
  next
    case arr
    then obtain d r' where a: "skip_ws r = d # r'"
      using eq by (auto split: list.splits)
    consider (empty) "after_value [] (PList []) r' = Some w"
      | (element) "scan_value [InArray []] (d # r') = Some w"
      using eq arr a by (auto split: if_splits)
    then have "is_container w"
    proof cases
      case empty
      from after_value_top [OF empty] show ?thesis by simp
    next
      case element
      from nested [OF element] show ?thesis by simp
    qed
    then show ?thesis by (cases w) simp_all
  next
    case atom
    then obtain u r' where a: "scan_atom (c # r) = Some (u, r')"
      and b: "after_value [] u r' = Some w"
      using eq by (auto split: option.splits)
    from after_value_top [OF b] scan_atom_kind [OF a] show ?thesis by (cases u) auto
  qed
qed

lemma decode_result:
  "decode s = Inr w \<Longrightarrow> \<not> is_bytes w \<and> w \<noteq> PStr s"
proof -
  assume "decode s = Inr w"
  then have "scan_value [] (skip_ws s) = Some w"
    by (simp add: decode_def split: option.splits)
  from scan_value_top [OF this] skip_ws_length [of s] show ?thesis
    by auto
qed

lemma loads_never_fixed: "json_loads y \<noteq> Inr y"
proof
  assume a: "json_loads y = Inr y"
  show False
  proof (cases y)
    case (PStr s)
    with a have "decode s = Inr (PStr s)" by (simp add: json_loads_def split: if_splits)
    from decode_result [OF this] show False by simp
  next
    case (PBytes b)
    with a obtain t where "decode t = Inr (PBytes b)"
      by (auto simp: json_loads_def split: sum.splits)
    from decode_result [OF this] show False by simp
  next
    case (PByteArray b)
    with a obtain t where "decode t = Inr (PByteArray b)"
      by (auto simp: json_loads_def split: sum.splits)
    from decode_result [OF this] show False by simp
  qed (use a in \<open>simp_all add: json_loads_def\<close>)
qed

lemma prepare_fixed_iff:
  "prepare_config_data y = Inr y \<longleftrightarrow> is_dict y \<or> (is_str y \<and> json_loads y = Inl JSONDecodeError)"
proof (cases "json_loads y")
  case (Inl e)
  then show ?thesis
    by (cases e) (auto simp: prepare_config_data_def)
next
  case (Inr w)
  with loads_never_fixed [of y] have "w \<noteq> y" by auto
  with Inr show ?thesis
    by (auto simp: prepare_config_data_def)
qed

section \<open>Evaluations used below\<close>

lemma digits_2019: "digits 2019 = ''2019''"
  by code_simp

lemma str_int_2019: "str_int 2019 = ''2019''"
  by (simp add: str_int_def digits_2019)

lemma loads_plain_text: "json_loads (PBytes ''plain text'') = Inl JSONDecodeError"
  by code_simp

lemma loads_not_json: "json_loads (PStr ''not json'') = Inl JSONDecodeError"
  by code_simp

lemma loads_5: "json_loads (PStr ''5'') = Inr (PInt 5)"
  by code_simp

lemma loads_obj:
  "json_loads (PStr ([CHR 0x7B, CHR 0x22] @ ''a'' @ [CHR 0x22] @ '': 1}''))
     = Inr (PDict [(PStr ''a'', PInt 1)])"
  by code_simp

lemma loads_int: "json_loads (PInt i) = Inl TypeError"
  by (simp add: json_loads_def)

lemma loads_str_error: "json_loads (PStr s) = Inl e \<Longrightarrow> e = JSONDecodeError"
  by (auto simp: json_loads_def decode_def split: if_splits option.splits)

lemma execute_no_body:
  "fst (execute remote c url method PNone) =
     [\<lparr>req_method = method, req_url = url,
       req_headers = (if truthy (headers_origin c)
                      then [(''Content-Type'', ''application/json''), (''Origin'', the (headers_origin c))]
                      else [(''Content-Type'', ''application/json'')]),
       req_data = PNone\<rparr>]"
  by (simp add: execute_def Let_def split: sum.splits option.splits)

lemma dumps_str: "json_dumps (PStr s) = Inr (encode_basestring_ascii s)"
  by (simp add: json_dumps_def)

lemma encode_abc: "encode_basestring_ascii ''abc'' = [CHR 0x22] @ ''abc'' @ [CHR 0x22]"
  by code_simp

lemma dumps_obj:
  "json_dumps (PDict [(PStr ''a'', PInt 1)]) = Inr ([CHR 0x7B, CHR 0x22] @ ''a'' @ [CHR 0x22] @ '': 1}'')"
  by code_simp

lemma execute_sent:
  "fst (execute remote c url method data) =
     (case (if is_dict data \<or> is_str data
            then (case json_dumps data of Inl e \<Rightarrow> Inl e | Inr t \<Rightarrow> Inr (PStr t))
            else Inr data) of
        Inl e \<Rightarrow> []
      | Inr body \<Rightarrow>
          [\<lparr>req_method = method, req_url = url,
            req_headers = (if truthy (headers_origin c)
                           then [(''Content-Type'', ''application/json''), (''Origin'', the (headers_origin c))]
                           else [(''Content-Type'', ''application/json'')]),
            req_data = body\<rparr>])"
  by (simp add: execute_def Let_def split: sum.splits option.splits)

lemma execute_result:
  "snd (execute remote c url method data) =
     (case (if is_dict data \<or> is_str data
            then (case json_dumps data of Inl e \<Rightarrow> Inl e | Inr t \<Rightarrow> Inr (PStr t))
            else Inr data) of
        Inl e \<Rightarrow> Inl e
      | Inr body \<Rightarrow>
          (case remote \<lparr>req_method = method, req_url = url,
                  req_headers = (if truthy (headers_origin c)
                                 then [(''Content-Type'', ''application/json''), (''Origin'', the (headers_origin c))]
                                 else [(''Content-Type'', ''application/json'')]),
                  req_data = body\<rparr> of
             Inl e \<Rightarrow> Inl e
           | Inr res \<Rightarrow>
               (case raise_for_status res of Some e \<Rightarrow> Inl e | None \<Rightarrow> Inr (content res))))"
  by (simp add: execute_def Let_def split: sum.splits option.splits)

lemma raise_for_status_error:
  "400 \<le> status_code res \<Longrightarrow> status_code res < 600 \<Longrightarrow>
     raise_for_status res = Some (HTTPError (status_code res) (content res))"
  by (simp add: raise_for_status_def)

lemma raise_for_status_other:
  "\<not> (400 \<le> status_code res \<and> status_code res < 600) \<Longrightarrow> raise_for_status res = None"
  by (auto simp: raise_for_status_def)

lemma execute_failure:
  assumes sent: "fst (execute remote c url method data) = [rq]"
    and res: "remote rq = Inr res" and lo: "400 \<le> status_code res" and hi: "status_code res < 600"
  shows "snd (execute remote c url method data) = Inl (HTTPError (status_code res) (content res))"
proof (cases "if is_dict data \<or> is_str data
            then (case json_dumps data of Inl e \<Rightarrow> Inl e | Inr t \<Rightarrow> Inr (PStr t))
            else Inr data")
  case (Inl e)
  with sent show ?thesis
    by (simp only: execute_sent sum.case list.simps)
next
  case (Inr body)
  with sent have "rq = \<lparr>req_method = method, req_url = url,
        req_headers = (if truthy (headers_origin c)
                       then [(''Content-Type'', ''application/json''), (''Origin'', the (headers_origin c))]
                       else [(''Content-Type'', ''application/json'')]),
        req_data = body\<rparr>"
    by (simp only: execute_sent sum.case list.inject)
  with res Inr show ?thesis
    by (simp only: execute_result sum.case raise_for_status_error [OF lo hi] option.case)
qed


lemma config_sent:
  "fst (config remote c path config_id raw)
     = fst (execute remote c (generate_url_by_path c path config_id) ''GET'' PNone)"
  by (simp add: config_def Let_def split: prod.splits sum.splits)

lemma config_result:
  "snd (config remote c path config_id raw)
     = (case snd (execute remote c (generate_url_by_path c path config_id) ''GET'' PNone) of
          Inl e \<Rightarrow> Inl e
        | Inr body \<Rightarrow> if \<not> raw then json_loads (PBytes body) else Inr (PBytes body))"
  by (simp add: config_def Let_def split: prod.splits sum.splits)

lemma add_sent:
  "fst (add remote c cfg path config_id)
     = (case prepare_config_data cfg of
          Inl e \<Rightarrow> []
        | Inr cfg' \<Rightarrow> fst (execute remote c (generate_url_by_path c path config_id) ''PUT'' cfg'))"
  by (simp add: add_def split: sum.splits)

lemma execute_sent_verb:
  "rq \<in> set (fst (execute remote c url method data)) \<Longrightarrow> req_method rq = method \<and> req_url rq = url"
  by (cases "if is_dict data \<or> is_str data
            then (case json_dumps data of Inl e \<Rightarrow> Inl e | Inr t \<Rightarrow> Inr (PStr t))
            else Inr data")
     (simp_all add: execute_sent)

lemma loads_hostname: "json_loads (PStr ''test.example.com'') = Inl JSONDecodeError"
  by code_simp

lemma encode_hostname:
  "encode_basestring_ascii ''test.example.com'' = [CHR 0x22] @ ''test.example.com'' @ [CHR 0x22]"
  by code_simp

section \<open>Location resolution: results\<close>

text \<open>
  C8. When both the path and the identifier are absent, the target is the base address
  followed by \<^verbatim>\<open>config/\<close>. For a client of host \<^verbatim>\<open>example.com\<close>, port 2019 and protocol
  \<^verbatim>\<open>http\<close> this is \<^verbatim>\<open>http://example.com:2019/config/\<close>, and a read without path and
  identifier sends its one request to this address.
\<close>

theorem resolve_root:
  "generate_url_by_path c None None = generate_url c @ ''config/''
   \<and> generate_url_by_path (Caddy ''example.com'' 2019 ''http'' ho) None None
       = ''http://example.com:2019/config/''
   \<and> map req_url (fst (config remote (Caddy ''example.com'' 2019 ''http'' ho) None None raw))
       = [''http://example.com:2019/config/'']"
proof -
  have a: "generate_url_by_path c None None = generate_url c @ ''config/''" for c
    by (simp add: generate_url_by_path_def)
  have b: "generate_url (Caddy ''example.com'' 2019 ''http'' ho) = ''http://example.com:2019/''"
    by (simp add: generate_url_def Caddy_def str_int_2019)
  have c: "fst (config remote k None None raw)
      = fst (execute remote k (generate_url_by_path k None None) ''GET'' PNone)" for k
    by (simp add: config_def Let_def split: prod.splits sum.splits)
  show ?thesis
    by (simp add: a b c execute_no_body)
qed

text \<open>
  C10. An empty path and an empty identifier are treated like absent ones: replacing
  \<^verbatim>\<open>''\<close> by \<^verbatim>\<open>None\<close> in either argument does not change the target, and with both empty
  the target is the base address followed by \<^verbatim>\<open>config/\<close>.
\<close>

theorem resolve_empty_as_absent:
  "generate_url_by_path c (Some []) config_id = generate_url_by_path c None config_id
   \<and> generate_url_by_path c path (Some []) = generate_url_by_path c path None
   \<and> generate_url_by_path c (Some []) (Some []) = generate_url c @ ''config/''"
  by (simp add: generate_url_by_path_def)

text \<open>
  C2. The claim: with a path and no identifier the target is the base address followed
  by the path without its leading separator, as in \<^verbatim>\<open>http://h:2019/foo/bar\<close>. The code
  joins the two with \<^verbatim>\<open>'{}/{}'\<close> although the base address already ends with a
  separator: for the base \<^verbatim>\<open>http://h:2019/\<close> and the path \<^verbatim>\<open>foo/bar\<close> it yields
  \<^verbatim>\<open>http://h:2019//foo/bar\<close>.
\<close>

theorem resolve_path_only_double_separator:
  "generate_url (Caddy ''h'' 2019 ''http'' None) = ''http://h:2019/''
   \<and> generate_url_by_path (Caddy ''h'' 2019 ''http'' None) (Some ''foo/bar'') None
       = ''http://h:2019//foo/bar''
   \<and> generate_url_by_path (Caddy ''h'' 2019 ''http'' None) (Some ''foo/bar'') None
       \<noteq> ''http://h:2019/foo/bar''"
  by (simp add: generate_url_by_path_def generate_url_def Caddy_def str_int_2019 lstrip_slash_def)

text \<open>
  C5, as stated: with an identifier, the path is appended after \<^verbatim>\<open>/\<close> with exactly one
  leading separator stripped. For the path \<^verbatim>\<open>//a\<close> that would leave \<^verbatim>\<open>/a\<close>; the code
  strips both separators.
\<close>

theorem resolve_identifier_strips_all:
  "generate_url_by_path (Caddy ''h'' 2019 ''http'' None) (Some ''//a'') (Some ''host'')
     = ''http://h:2019/id/host/a''
   \<and> generate_url (Caddy ''h'' 2019 ''http'' None) @ ''id/'' @ ''host'' @ ''/'' @ strip_one_slash ''//a''
     = ''http://h:2019/id/host//a''
   \<and> generate_url_by_path (Caddy ''h'' 2019 ''http'' None) (Some ''//a'') (Some ''host'')
     \<noteq> generate_url (Caddy ''h'' 2019 ''http'' None) @ ''id/'' @ ''host'' @ ''/'' @ strip_one_slash ''//a''"
  by (simp add: generate_url_by_path_def generate_url_def Caddy_def str_int_2019 lstrip_slash_def
      strip_one_slash_def)

text \<open>
  C5, amended. For every non-empty identifier the target is the base address followed by
  \<^verbatim>\<open>id/\<close> and the identifier; a non-empty path is appended after \<^verbatim>\<open>/\<close> with all of its
  leading separators stripped, so that the identifier \<^verbatim>\<open>host\<close> with the path \<^verbatim>\<open>host/0\<close>
  gives \<^verbatim>\<open>.../id/host/host/0\<close>; and every request the insert operation sends is a
  \<^verbatim>\<open>PUT\<close> to the target resolved from its path and identifier.
\<close>

theorem resolve_identifier:
  "i \<noteq> [] \<Longrightarrow>
     generate_url_by_path c None (Some i) = generate_url c @ ''id/'' @ i
     \<and> generate_url_by_path c (Some []) (Some i) = generate_url c @ ''id/'' @ i
     \<and> (p \<noteq> [] \<longrightarrow>
          generate_url_by_path c (Some p) (Some i) = generate_url c @ ''id/'' @ i @ ''/'' @ lstrip_slash p)
     \<and> generate_url_by_path c (Some ''host/0'') (Some ''host'') = generate_url c @ ''id/host/host/0''
     \<and> (\<forall>rq \<in> set (fst (add remote c cfg path (Some i))).
          req_method rq = ''PUT'' \<and> req_url rq = generate_url_by_path c path (Some i))"
proof (intro conjI impI ballI)
  assume i: "i \<noteq> []"
  show "generate_url_by_path c None (Some i) = generate_url c @ ''id/'' @ i"
    using i by (simp add: generate_url_by_path_def)
  show "generate_url_by_path c (Some []) (Some i) = generate_url c @ ''id/'' @ i"
    using i by (simp add: generate_url_by_path_def)
  show "generate_url_by_path c (Some ''host/0'') (Some ''host'') = generate_url c @ ''id/host/host/0''"
    by (simp add: generate_url_by_path_def lstrip_slash_def)
  {
    assume "p \<noteq> []"
    then show "generate_url_by_path c (Some p) (Some i)
        = generate_url c @ ''id/'' @ i @ ''/'' @ lstrip_slash p"
      using i by (simp add: generate_url_by_path_def)
  }
  {
    fix rq
    assume "rq \<in> set (fst (add remote c cfg path (Some i)))"
    then show "req_method rq = ''PUT''" and "req_url rq = generate_url_by_path c path (Some i)"
      by (auto simp: add_sent split: sum.splits dest: execute_sent_verb)
  }
qed

theorem resolve_identifier_witness:
  "''host'' \<noteq> [] \<and> ''host/0'' \<noteq> []
   \<and> generate_url_by_path (Caddy ''h'' 2019 ''http'' None) (Some ''host/0'') (Some ''host'')
       = ''http://h:2019/id/host/host/0''
   \<and> fst (add (answer 200 []) (Caddy ''h'' 2019 ''http'' None) (PStr ''test.example.com'')
            (Some ''host/0'') (Some ''host''))
       = [\<lparr>req_method = ''PUT'', req_url = ''http://h:2019/id/host/host/0'',
           req_headers = [(''Content-Type'', ''application/json'')],
           req_data = PStr ([CHR 0x22] @ ''test.example.com'' @ [CHR 0x22])\<rparr>]"
proof -
  let ?c = "Caddy ''h'' 2019 ''http'' None"
  have b: "generate_url ?c = ''http://h:2019/''"
    by (simp add: generate_url_def Caddy_def str_int_2019)
  have h: "headers_origin ?c = None"
    by (simp add: Caddy_def)
  have n: "prepare_config_data (PStr ''test.example.com'') = Inr (PStr ''test.example.com'')"
    by (simp add: prepare_config_data_def loads_hostname)
  note w = resolve_identifier [where i = "''host''" and p = "''host/0''" and c = ?c
      and remote = "answer 200 []" and cfg = "PStr ''test.example.com''" and path = "Some ''host/0''"]
  have u: "generate_url_by_path ?c (Some ''host/0'') (Some ''host'') = ''http://h:2019/id/host/host/0''"
    using w b by (simp add: lstrip_slash_def)
  have s: "fst (add (answer 200 []) ?c (PStr ''test.example.com'') (Some ''host/0'') (Some ''host''))
       = [\<lparr>req_method = ''PUT'', req_url = ''http://h:2019/id/host/host/0'',
           req_headers = [(''Content-Type'', ''application/json'')],
           req_data = PStr ([CHR 0x22] @ ''test.example.com'' @ [CHR 0x22])\<rparr>]"
    using h by (simp add: add_sent n u execute_sent dumps_str encode_hostname)
  from u s show ?thesis by simp
qed

section \<open>Payload normalization: results\<close>

text \<open>
  C9. A plain string on which \<^verbatim>\<open>json.loads\<close> fails is returned unchanged, and a
  \<^verbatim>\<open>dict\<close> is returned unchanged.
\<close>

theorem normalize_passthrough:
  "(json_loads (PStr s) = Inl e \<longrightarrow> prepare_config_data (PStr s) = Inr (PStr s))
   \<and> prepare_config_data (PDict d) = Inr (PDict d)"
  by (auto simp: prepare_config_data_def dest: loads_str_error)

theorem normalize_passthrough_witness:
  "json_loads (PStr ''not json'') = Inl JSONDecodeError
   \<and> prepare_config_data (PStr ''not json'') = Inr (PStr ''not json'')
   \<and> prepare_config_data (PDict [(PStr ''a'', PInt 1)]) = Inr (PDict [(PStr ''a'', PInt 1)])"
  using normalize_passthrough [of "''not json''" JSONDecodeError "[(PStr ''a'', PInt 1)]"]
  by (simp add: loads_not_json)

text \<open>
  C6. The claim: an input that is neither a \<^verbatim>\<open>dict\<close> nor a \<^verbatim>\<open>str\<close> and does not parse
  raises a JSON decode error; the docstring of \<^verbatim>\<open>_prepare_config_data\<close> says the same, and
  the \<^verbatim>\<open>except\<close> clause raises \<^verbatim>\<open>JSONDecodeError\<close> for every input that is not a \<^verbatim>\<open>str\<close>.
  For the number 5 the exception is a \<^verbatim>\<open>TypeError\<close> instead: \<^verbatim>\<open>json.loads\<close> rejects its type
  before parsing, and the clause catches \<^verbatim>\<open>JSONDecodeError\<close> only. Bytes that are not
  JSON do reach the clause and raise \<^verbatim>\<open>JSONDecodeError\<close>.
\<close>

theorem normalize_number_type_error:
  "\<not> is_dict (PInt 5) \<and> \<not> is_str (PInt 5) \<and> json_loads (PInt 5) = Inl TypeError
   \<and> prepare_config_data (PInt 5) = Inl TypeError
   \<and> prepare_config_data (PInt 5) \<noteq> Inl JSONDecodeError
   \<and> prepare_config_data (PBool True) = Inl TypeError
   \<and> prepare_config_data (PBytes ''plain text'') = Inl JSONDecodeError"
proof -
  have b: "json_loads (PBool True) = Inl TypeError"
    by (simp add: json_loads_def)
  show ?thesis
    by (simp add: prepare_config_data_def loads_int loads_plain_text b)
qed

text \<open>
  C3, as stated: normalizing a normalized value returns it unchanged. The string \<^verbatim>\<open>'5'\<close>
  is JSON text and normalizes to the number 5; the number 5 is then rejected with a
  \<^verbatim>\<open>TypeError\<close>.
\<close>

theorem normalize_not_idempotent:
  "prepare_config_data (PStr ''5'') = Inr (PInt 5)
   \<and> prepare_config_data (PInt 5) = Inl TypeError
   \<and> prepare_config_data (PInt 5) \<noteq> Inr (PInt 5)"
  by (simp add: prepare_config_data_def loads_5 loads_int)

text \<open>
  C3, amended. Normalizing twice equals normalizing once exactly when the normalized
  value is a \<^verbatim>\<open>dict\<close>, or a string that does not parse as JSON; such a value is accepted
  again and returned unchanged.
\<close>

theorem normalize_idempotent_iff:
  "prepare_config_data x = Inr y \<Longrightarrow>
     ((case prepare_config_data x of Inl e \<Rightarrow> Inl e | Inr z \<Rightarrow> prepare_config_data z)
         = prepare_config_data x
       \<longleftrightarrow> is_dict y \<or> (is_str y \<and> json_loads y = Inl JSONDecodeError))
     \<and> (is_dict y \<or> (is_str y \<and> json_loads y = Inl JSONDecodeError)
       \<longrightarrow> prepare_config_data y = Inr y)"
  using prepare_fixed_iff [of y] by simp

theorem normalize_idempotent_iff_witness:
  "prepare_config_data (PStr ([CHR 0x7B, CHR 0x22] @ ''a'' @ [CHR 0x22] @ '': 1}''))
     = Inr (PDict [(PStr ''a'', PInt 1)])
   \<and> is_dict (PDict [(PStr ''a'', PInt 1)])
   \<and> prepare_config_data (PDict [(PStr ''a'', PInt 1)]) = Inr (PDict [(PStr ''a'', PInt 1)])
   \<and> prepare_config_data (PStr ''not json'') = Inr (PStr ''not json'')
   \<and> is_str (PStr ''not json'') \<and> json_loads (PStr ''not json'') = Inl JSONDecodeError
   \<and> (case prepare_config_data (PStr ''not json'') of Inl e \<Rightarrow> Inl e | Inr z \<Rightarrow> prepare_config_data z)
       = prepare_config_data (PStr ''not json'')"
proof -
  have a: "prepare_config_data (PStr ([CHR 0x7B, CHR 0x22] @ ''a'' @ [CHR 0x22] @ '': 1}''))
     = Inr (PDict [(PStr ''a'', PInt 1)])"
    using loads_obj by (simp add: prepare_config_data_def)
  have b: "prepare_config_data (PStr ''not json'') = Inr (PStr ''not json'')"
    by (simp add: prepare_config_data_def loads_not_json)
  have c: "is_str (PStr ''not json'') \<and> json_loads (PStr ''not json'') = Inl JSONDecodeError"
    by (simp add: loads_not_json)
  have d: "is_dict (PDict [(PStr ''a'', PInt 1)])"
    by simp
  from normalize_idempotent_iff [OF a] normalize_idempotent_iff [OF b] a b c d show ?thesis
    by blast
qed

section \<open>Reading: results\<close>

text \<open>
  C1. The claim: a read with decoding requested whose response is not JSON returns the
  raw bytes. The documentation in \<^verbatim>\<open>config\<close> promises the same, but \<^verbatim>\<open>json.loads(res)\<close> is
  not guarded: for the response body \<^verbatim>\<open>plain text\<close> with status 200 the read raises
  \<^verbatim>\<open>JSONDecodeError\<close>, after the same request a raw read sends, and only the raw read
  returns the bytes.
\<close>

theorem read_decode_failure_raises:
  "config (answer 200 ''plain text'') c path config_id False
     = (fst (config (answer 200 ''plain text'') c path config_id True), Inl JSONDecodeError)
   \<and> snd (config (answer 200 ''plain text'') c path config_id False) \<noteq> Inr (PBytes ''plain text'')
   \<and> snd (config (answer 200 ''plain text'') c path config_id True) = Inr (PBytes ''plain text'')"
  by (simp add: config_def execute_def answer_def raise_for_status_def Let_def loads_plain_text)

section \<open>The transport invoker: results\<close>

text \<open>
  C4, as stated: a string body is sent unchanged, not quoted again. The body \<^verbatim>\<open>abc\<close>
  given as a \<^verbatim>\<open>str\<close> is sent as the five characters \<^verbatim>\<open>"abc"\<close>: \<^verbatim>\<open>_execute\<close> passes every
  \<^verbatim>\<open>dict\<close> and every \<^verbatim>\<open>str\<close> through \<^verbatim>\<open>json.dumps\<close>.
\<close>

theorem execute_str_body_quoted:
  "map req_data (fst (execute (answer 200 []) (Caddy ''h'' 2019 ''http'' None) ''http://h:2019/id/x'' ''PUT'' (PStr ''abc'')))
     = [PStr ([CHR 0x22] @ ''abc'' @ [CHR 0x22])]
   \<and> map req_data (fst (execute (answer 200 []) (Caddy ''h'' 2019 ''http'' None) ''http://h:2019/id/x'' ''PUT'' (PStr ''abc'')))
     \<noteq> [PStr ''abc'']"
  by (simp add: execute_sent dumps_str encode_abc)

text \<open>
  C4, amended. For every call of the transport invoker: a \<^verbatim>\<open>dict\<close> body is sent as the
  text \<^verbatim>\<open>json.dumps\<close> makes of it; a \<^verbatim>\<open>str\<close> body is sent as the JSON string
  \<^verbatim>\<open>json.dumps\<close> makes of it, in quotes and escaped; a body of any other type, such as
  \<^verbatim>\<open>bytes\<close>, is handed over unchanged; and without a body none is sent.
\<close>

theorem execute_body:
  "(json_dumps (PDict d) = Inr t \<longrightarrow>
      map req_data (fst (execute remote c url method (PDict d))) = [PStr t])
   \<and> map req_data (fst (execute remote c url method (PStr s))) = [PStr (encode_basestring_ascii s)]
   \<and> json_dumps (PStr s) = Inr (encode_basestring_ascii s)
   \<and> (\<not> is_dict data \<and> \<not> is_str data \<longrightarrow>
        map req_data (fst (execute remote c url method data)) = [data])
   \<and> map req_data (fst (execute remote c url method (PBytes b))) = [PBytes b]
   \<and> map req_data (fst (execute remote c url method PNone)) = [PNone]"
  by (simp add: execute_sent dumps_str)

theorem execute_body_witness:
  "json_dumps (PDict [(PStr ''a'', PInt 1)]) = Inr ([CHR 0x7B, CHR 0x22] @ ''a'' @ [CHR 0x22] @ '': 1}'')
   \<and> map req_data (fst (execute (answer 200 []) (Caddy ''h'' 2019 ''http'' None) ''http://h:2019/config/'' ''POST''
         (PDict [(PStr ''a'', PInt 1)])))
       = [PStr ([CHR 0x7B, CHR 0x22] @ ''a'' @ [CHR 0x22] @ '': 1}'')]
   \<and> \<not> is_dict (PInt 7) \<and> \<not> is_str (PInt 7)
   \<and> map req_data (fst (execute (answer 200 []) (Caddy ''h'' 2019 ''http'' None) ''http://h:2019/config/'' ''POST''
         (PInt 7))) = [PInt 7]"
proof -
  note w = execute_body [of "[(PStr ''a'', PInt 1)]"
      "[CHR 0x7B, CHR 0x22] @ ''a'' @ [CHR 0x22] @ '': 1}''"
      "answer 200 []" "Caddy ''h'' 2019 ''http'' None"
      "''http://h:2019/config/''" "''POST''" "[]" "PInt 7" "[]"]
  have n: "\<not> is_dict (PInt 7) \<and> \<not> is_str (PInt 7)"
    by simp
  from w dumps_obj n show ?thesis
    by blast
qed

text \<open>
  C7, as stated: every response whose status is outside the success range makes the call
  fail. The status 304 is outside the success range, and the call succeeds:
  \<^verbatim>\<open>raise_for_status\<close> raises for 400 to 599 only, so the transport invoker returns the
  body and a read decodes it.
\<close>

theorem status_304_returns_content:
  "\<not> in_success_range \<lparr>status_code = 304, content = ''5''\<rparr>
   \<and> execute (answer 304 ''5'') (Caddy ''example.com'' 2019 ''http'' None)
        ''http://example.com:2019/config/'' ''GET'' PNone
       = ([\<lparr>req_method = ''GET'', req_url = ''http://example.com:2019/config/'',
            req_headers = [(''Content-Type'', ''application/json'')], req_data = PNone\<rparr>],
          Inr ''5'')
   \<and> snd (config (answer 304 ''5'') (Caddy ''example.com'' 2019 ''http'' None) None None False)
       = Inr (PInt 5)"
proof -
  let ?c = "Caddy ''example.com'' 2019 ''http'' None"
  have h: "headers_origin ?c = None"
    by (simp add: Caddy_def)
  have u: "generate_url_by_path ?c None None = ''http://example.com:2019/config/''"
    by (simp add: generate_url_by_path_def generate_url_def Caddy_def str_int_2019)
  have r: "raise_for_status \<lparr>status_code = 304, content = ''5''\<rparr> = None"
    by (simp add: raise_for_status_def)
  have e: "execute (answer 304 ''5'') ?c ''http://example.com:2019/config/'' ''GET'' PNone
       = ([\<lparr>req_method = ''GET'', req_url = ''http://example.com:2019/config/'',
            req_headers = [(''Content-Type'', ''application/json'')], req_data = PNone\<rparr>],
          Inr ''5'')"
    using h by (simp add: execute_def Let_def answer_def r)
  have l: "json_loads (PBytes ''5'') = Inr (PInt 5)"
    by code_simp
  have g: "snd (config (answer 304 ''5'') ?c None None False) = Inr (PInt 5)"
    by (simp add: config_result u e l)
  from e g show ?thesis
    by (simp add: in_success_range_def)
qed

text \<open>
  C7, amended. A response whose status is a client or server error, 400 to 599, makes
  the call fail with an \<^verbatim>\<open>HTTPError\<close> carrying the status code and the body; no content is
  returned, neither by the transport invoker nor, decoded or raw, by a read.
\<close>

theorem error_status_raises:
  "remote rq = Inr res \<Longrightarrow> 400 \<le> status_code res \<Longrightarrow> status_code res < 600 \<Longrightarrow>
     (fst (execute remote c url method data) = [rq] \<longrightarrow>
        snd (execute remote c url method data) = Inl (HTTPError (status_code res) (content res)))
     \<and> (fst (config remote c path config_id raw) = [rq] \<longrightarrow>
        snd (config remote c path config_id raw) = Inl (HTTPError (status_code res) (content res)))"
proof (intro conjI impI)
  assume res: "remote rq = Inr res" and lo: "400 \<le> status_code res" and hi: "status_code res < 600"
  {
    assume "fst (execute remote c url method data) = [rq]"
    then show "snd (execute remote c url method data) = Inl (HTTPError (status_code res) (content res))"
      using res lo hi by (rule execute_failure)
  }
  {
    assume "fst (config remote c path config_id raw) = [rq]"
    then have "fst (execute remote c (generate_url_by_path c path config_id) ''GET'' PNone) = [rq]"
      by (simp only: config_sent)
    then have "snd (execute remote c (generate_url_by_path c path config_id) ''GET'' PNone)
        = Inl (HTTPError (status_code res) (content res))"
      using res lo hi by (rule execute_failure)
    then show "snd (config remote c path config_id raw) = Inl (HTTPError (status_code res) (content res))"
      by (simp only: config_result sum.case)
  }
qed

theorem error_status_raises_witness:
  "answer 500 ''boom''
      \<lparr>req_method = ''GET'', req_url = ''http://example.com:2019/config/'',
        req_headers = [(''Content-Type'', ''application/json'')], req_data = PNone\<rparr>
     = Inr \<lparr>status_code = 500, content = ''boom''\<rparr>
   \<and> (400::int) \<le> 500 \<and> (500::int) < 600
   \<and> fst (execute (answer 500 ''boom'') (Caddy ''example.com'' 2019 ''http'' None)
            ''http://example.com:2019/config/'' ''GET'' PNone)
       = [\<lparr>req_method = ''GET'', req_url = ''http://example.com:2019/config/'',
           req_headers = [(''Content-Type'', ''application/json'')], req_data = PNone\<rparr>]
   \<and> snd (execute (answer 500 ''boom'') (Caddy ''example.com'' 2019 ''http'' None)
            ''http://example.com:2019/config/'' ''GET'' PNone)
       = Inl (HTTPError 500 ''boom'')
   \<and> fst (config (answer 500 ''boom'') (Caddy ''example.com'' 2019 ''http'' None) None None False)
       = [\<lparr>req_method = ''GET'', req_url = ''http://example.com:2019/config/'',
           req_headers = [(''Content-Type'', ''application/json'')], req_data = PNone\<rparr>]
   \<and> snd (config (answer 500 ''boom'') (Caddy ''example.com'' 2019 ''http'' None) None None False)
       = Inl (HTTPError 500 ''boom'')"
proof -
  let ?rq = "\<lparr>req_method = ''GET'', req_url = ''http://example.com:2019/config/'',
        req_headers = [(''Content-Type'', ''application/json'')], req_data = PNone\<rparr>"
  let ?res = "\<lparr>status_code = 500, content = ''boom''\<rparr>"
  let ?c = "Caddy ''example.com'' 2019 ''http'' None"
  have a: "answer 500 ''boom'' ?rq = Inr ?res"
    by (simp add: answer_def)
  have lo: "400 \<le> status_code ?res" and hi: "status_code ?res < 600"
    by simp_all
  have u: "generate_url_by_path ?c None None = ''http://example.com:2019/config/''"
    by (simp add: generate_url_by_path_def generate_url_def Caddy_def str_int_2019)
  have s1: "fst (execute (answer 500 ''boom'') ?c ''http://example.com:2019/config/'' ''GET'' PNone) = [?rq]"
    by (simp add: execute_no_body Caddy_def)
  have s2: "fst (config (answer 500 ''boom'') ?c None None False) = [?rq]"
    unfolding config_sent u by (rule s1)
  note w = error_status_raises [of "answer 500 ''boom''" ?rq ?res ?c
      "''http://example.com:2019/config/''" "''GET''" PNone None None False,
      OF a lo hi]
  from w s1 s2 a show ?thesis
    by simp
qed

end
